theory Spec2Isabelle
  imports Main
begin

section \<open>Data model of \<^verbatim>\<open>src/api/main.py\<close>\<close>

text \<open>
  The pydantic models become records. A field called \<^verbatim>\<open>id\<close>, \<^verbatim>\<open>type\<close> or
  \<^verbatim>\<open>name\<close> in the source is prefixed, because records of one theory share a name space
  and \<open>id\<close> is a constant of HOL.
\<close>

record JobModel =
  job_id :: string
  location :: string
  job_type :: string
  related_job_id :: "string option"
  preferred_date :: "string list option"

record DriverModel =
  drv_id :: string
  available_hours :: int
  drv_name :: "string option"
  drv_email :: "string option"
  drv_phone :: "string option"

text \<open>
  \<^verbatim>\<open>num_drivers_per_day\<close> is declared \<^verbatim>\<open>Field(..., gt=0)\<close>: the framework refuses a
  request with a value below 1 before the handler runs, so the handler sees a positive number.
\<close>

record OptimizationRequest =
  req_jobs :: "JobModel list"
  req_drivers :: "DriverModel list"
  num_drivers_per_day :: nat

record JobStop =
  stop_job_id :: string
  window :: "int list"

record RouteModel =
  driver_id :: string
  day :: nat
  rm_stops :: "JobStop list"
  rm_total_time :: int

record OptimizationResponse =
  routes :: "RouteModel list"
  unassigned :: "string list"

text \<open>The dictionaries that \<^verbatim>\<open>create_data_model\<close> and \<^verbatim>\<open>solve_vrp\<close> build.\<close>

record job_entry =
  e_id :: string
  location_idx :: nat
  e_type :: string
  e_related_job_id :: "string option"
  e_preferred_date :: "string list option"

record data_model =
  time_matrix :: "int list list"
  num_locations :: nat
  depot :: nat
  num_vehicles :: nat
  jobs :: "job_entry list"
  job_pairs :: "(nat \<times> nat) list"
  jobs_by_day :: "nat list list"
  max_time_per_vehicle :: int

record vrp_route =
  vehicle_id :: nat
  stops :: "JobStop list"
  total_time :: int

text \<open>
  Exceptions are values. Of an \<^verbatim>\<open>HTTPException\<close> only the status code is kept; the
  detail text is not modelled.
\<close>

datatype error = HTTPException nat | IndexError | KeyError

text \<open>
  The routing solver is a black box. What the extraction loop reads from a solution is, for
  each vehicle, the chain of indices from \<^verbatim>\<open>routing.Start(vehicle_id)\<close> up to, but not
  including, the end index: for each index its node (\<^verbatim>\<open>manager.IndexToNode\<close>) and the
  minimum of its cumulative time variable (\<^verbatim>\<open>solution.Min(time_var)\<close>). The end index
  is a copy of the depot. \<open>None\<close> stands for a falsy \<^verbatim>\<open>solution\<close> (nothing found).
\<close>

type_synonym solution = "nat \<Rightarrow> (nat \<times> int) list"

text \<open>
  Everything the module reads from outside: the environment variable for the depot, the
  travel-time service (absent when no API key is set; \<open>None\<close> from it when the call or the
  decoding of its answer raises), the date parser composed with \<^verbatim>\<open>.date()\<close> (the day
  number of the date, \<open>None\<close> when \<^verbatim>\<open>fromisoformat\<close> raises), the current date as a
  day number, and the solver.
\<close>

record environment =
  DEPOT_LOCATION :: string
  routes_api :: "(string list \<Rightarrow> int list list option) option"
  fromisoformat :: "string \<Rightarrow> int option"
  today :: int
  SolveWithParameters :: "data_model \<Rightarrow> nat \<Rightarrow> solution option"

section \<open>\<^verbatim>\<open>compute_time_matrix\<close>\<close>

definition dummy_matrix :: "nat \<Rightarrow> int list list" where
  "dummy_matrix n =
     map (\<lambda>i. map (\<lambda>j. max 30 (\<bar>int i - int j\<bar> * 20)) [0..<n]) [0..<n]"

definition compute_time_matrix :: "environment \<Rightarrow> string list \<Rightarrow> error + int list list" where
  "compute_time_matrix env locations =
     (case routes_api env of
        None \<Rightarrow> Inr (dummy_matrix (length locations))
      | Some api \<Rightarrow>
          (case api locations of
             None \<Rightarrow> Inl (HTTPException 500)
           | Some matrix \<Rightarrow> Inr matrix))"

section \<open>\<^verbatim>\<open>create_data_model\<close>\<close>

text \<open>The loop that fills \<^verbatim>\<open>unique_locations\<close> and \<^verbatim>\<open>location_indices\<close>.\<close>

fun index_locations ::
  "string list \<Rightarrow> string list \<times> (string \<rightharpoonup> nat) \<Rightarrow> string list \<times> (string \<rightharpoonup> nat)" where
  "index_locations [] st = st"
| "index_locations (l # ls) (unique_locations, location_indices) =
     index_locations ls
       (if location_indices l = None
        then (unique_locations @ [l], location_indices(l \<mapsto> length unique_locations))
        else (unique_locations, location_indices))"

fun jobs_with_indices :: "(string \<rightharpoonup> nat) \<Rightarrow> JobModel list \<Rightarrow> error + job_entry list" where
  "jobs_with_indices location_indices [] = Inr []"
| "jobs_with_indices location_indices (job # rest) =
     (case location_indices (location job) of
        None \<Rightarrow> Inl KeyError
      | Some idx \<Rightarrow>
          (case jobs_with_indices location_indices rest of
             Inl e \<Rightarrow> Inl e
           | Inr es \<Rightarrow>
               Inr (\<lparr>e_id = job_id job, location_idx = idx, e_type = job_type job,
                     e_related_job_id = related_job_id job,
                     e_preferred_date = preferred_date job\<rparr> # es)))"

text \<open>The dictionary comprehension: a later entry with the same id overwrites an earlier one.\<close>

fun job_id_to_idx :: "(nat \<times> job_entry) list \<Rightarrow> (string \<rightharpoonup> nat) \<Rightarrow> (string \<rightharpoonup> nat)" where
  "job_id_to_idx [] m = m"
| "job_id_to_idx ((i, job) # rest) m = job_id_to_idx rest (m(e_id job \<mapsto> i))"

text \<open>
  \<^verbatim>\<open>job["type"] == "collection" and job["related_job_id"]\<close>: the second conjunct is
  Python truthiness, false for \<^verbatim>\<open>None\<close> and for the empty string.
\<close>

fun job_pairs_loop :: "(string \<rightharpoonup> nat) \<Rightarrow> (nat \<times> job_entry) list \<Rightarrow> (nat \<times> nat) list" where
  "job_pairs_loop m [] = []"
| "job_pairs_loop m ((i, job) # rest) =
     (case e_related_job_id job of
        None \<Rightarrow> job_pairs_loop m rest
      | Some r \<Rightarrow>
          if e_type job = ''collection'' \<and> r \<noteq> []
          then (case m r of
                  None \<Rightarrow> job_pairs_loop m rest
                | Some related_idx \<Rightarrow> (i, related_idx) # job_pairs_loop m rest)
          else job_pairs_loop m rest)"

definition create_job_pairs :: "job_entry list \<Rightarrow> (nat \<times> nat) list" where
  "create_job_pairs js =
     job_pairs_loop (job_id_to_idx (enumerate 0 js) Map.empty) (enumerate 0 js)"

text \<open>\<^verbatim>\<open>jobs_by_day[d].append(i)\<close> and \<^verbatim>\<open>for d in range(5): jobs_by_day[d].append(i)\<close>.\<close>

definition append_day :: "nat list list \<Rightarrow> nat \<Rightarrow> nat \<Rightarrow> nat list list" where
  "append_day jbd d i = jbd[d := jbd ! d @ [i]]"

definition append_all_days :: "nat list list \<Rightarrow> nat \<Rightarrow> nat list list" where
  "append_all_days jbd i = foldl (\<lambda>acc d. append_day acc d i) jbd [0..<5]"

fun dates_loop :: "environment \<Rightarrow> nat \<Rightarrow> string list \<Rightarrow> nat list list \<Rightarrow> nat list list" where
  "dates_loop env i [] jbd = jbd"
| "dates_loop env i (date_str # rest) jbd =
     dates_loop env i rest
       (case fromisoformat env date_str of
          None \<Rightarrow> append_all_days jbd i
        | Some job_date \<Rightarrow>
            (let day_diff = job_date - today env
             in if 0 \<le> day_diff \<and> day_diff < 5 then append_day jbd (nat day_diff) i else jbd))"

fun jobs_by_day_loop ::
  "environment \<Rightarrow> (nat \<times> job_entry) list \<Rightarrow> nat list list \<Rightarrow> nat list list" where
  "jobs_by_day_loop env [] jbd = jbd"
| "jobs_by_day_loop env ((i, job) # rest) jbd =
     jobs_by_day_loop env rest
       (case e_preferred_date job of
          None \<Rightarrow> append_all_days jbd i
        | Some [] \<Rightarrow> append_all_days jbd i
        | Some dates \<Rightarrow> dates_loop env i dates jbd)"

definition create_jobs_by_day :: "environment \<Rightarrow> job_entry list \<Rightarrow> nat list list" where
  "create_jobs_by_day env js = jobs_by_day_loop env (enumerate 0 js) (replicate 5 [])"

definition create_data_model ::
  "environment \<Rightarrow> JobModel list \<Rightarrow> nat \<Rightarrow> int \<Rightarrow> error + data_model" where
  "create_data_model env js num_drivers max_hours_per_driver =
     (let all_locations = DEPOT_LOCATION env # map location js;
          (unique_locations, location_indices) = index_locations all_locations ([], Map.empty)
      in case compute_time_matrix env unique_locations of
           Inl e \<Rightarrow> Inl e
         | Inr matrix \<Rightarrow>
             (case jobs_with_indices location_indices js of
                Inl e \<Rightarrow> Inl e
              | Inr entries \<Rightarrow>
                  Inr \<lparr>time_matrix = matrix,
                       num_locations = length unique_locations,
                       depot = 0,
                       num_vehicles = num_drivers,
                       jobs = entries,
                       job_pairs = create_job_pairs entries,
                       jobs_by_day = create_jobs_by_day env entries,
                       max_time_per_vehicle = max_hours_per_driver * 60\<rparr>))"

section \<open>\<^verbatim>\<open>solve_vrp\<close>\<close>

definition time_callback :: "data_model \<Rightarrow> nat \<Rightarrow> nat \<Rightarrow> error + int" where
  "time_callback dm from_node to_node =
     (if from_node < length (time_matrix dm)
         \<and> to_node < length (time_matrix dm ! from_node)
      then Inr (time_matrix dm ! from_node ! to_node)
      else Inl IndexError)"

text \<open>The inner \<^verbatim>\<open>for job_idx, job in enumerate(...)\<close> with its \<^verbatim>\<open>break\<close>.\<close>

fun find_job :: "job_entry list \<Rightarrow> nat \<Rightarrow> job_entry option" where
  "find_job [] node_index = None"
| "find_job (job # rest) node_index =
     (if location_idx job = node_index then Some job else find_job rest node_index)"

definition visit_stop :: "data_model \<Rightarrow> nat \<times> int \<Rightarrow> JobStop list" where
  "visit_stop dm v =
     (case v of (node_index, arrival_time) \<Rightarrow>
        if node_index \<noteq> 0
        then (case find_job (jobs dm) node_index of
                None \<Rightarrow> []
              | Some job \<Rightarrow>
                  [\<lparr>stop_job_id = e_id job,
                    window = [arrival_time,
                              min (arrival_time + 180) (max_time_per_vehicle dm)]\<rparr>])
        else [])"

text \<open>
  The \<^verbatim>\<open>while not routing.IsEnd(index)\<close> loop over one vehicle's chain, with its two
  accumulators. The node after the last index of the chain is the end node, the depot.
\<close>

fun walk_route ::
  "data_model \<Rightarrow> (nat \<times> int) list \<Rightarrow> JobStop list \<Rightarrow> int \<Rightarrow> error + JobStop list \<times> int" where
  "walk_route dm [] route route_time = Inr (route, route_time)"
| "walk_route dm (v # rest) route route_time =
     (case time_callback dm (fst v) (case rest of [] \<Rightarrow> depot dm | w # _ \<Rightarrow> fst w) of
        Inl e \<Rightarrow> Inl e
      | Inr t \<Rightarrow> walk_route dm rest (route @ visit_stop dm v) (route_time + t))"

fun extract_routes :: "data_model \<Rightarrow> solution \<Rightarrow> nat list \<Rightarrow> error + vrp_route list" where
  "extract_routes dm sol [] = Inr []"
| "extract_routes dm sol (vid # vids) =
     (case walk_route dm (sol vid) [] 0 of
        Inl e \<Rightarrow> Inl e
      | Inr (route, route_time) \<Rightarrow>
          (case extract_routes dm sol vids of
             Inl e \<Rightarrow> Inl e
           | Inr rs \<Rightarrow>
               Inr (if route \<noteq> []
                    then \<lparr>vehicle_id = vid, stops = route, total_time = route_time\<rparr> # rs
                    else rs)))"

definition is_assigned :: "vrp_route list \<Rightarrow> string \<Rightarrow> bool" where
  "is_assigned rs jid = list_ex (\<lambda>r. list_ex (\<lambda>s. stop_job_id s = jid) (stops r)) rs"

fun unassigned_loop :: "vrp_route list \<Rightarrow> nat list \<Rightarrow> (nat \<times> job_entry) list \<Rightarrow> string list" where
  "unassigned_loop rs allowed_jobs [] = []"
| "unassigned_loop rs allowed_jobs ((job_idx, job) # rest) =
     (if \<not> is_assigned rs (e_id job) \<and> job_idx \<in> set allowed_jobs
      then e_id job # unassigned_loop rs allowed_jobs rest
      else unassigned_loop rs allowed_jobs rest)"

text \<open>
  Before it solves, \<^verbatim>\<open>solve_vrp\<close> reads \<^verbatim>\<open>data_model['jobs'][...]\<close> at both
  indices of every pair, \<^verbatim>\<open>data_model['jobs_by_day'][day_index]\<close>, and
  \<^verbatim>\<open>data_model['jobs'][j]\<close> for every allowed job: each read raises when out of range.
  The constraints themselves only reach the solver, whose answer is the argument \<open>outcome\<close>.
\<close>

definition solve_vrp ::
  "data_model \<Rightarrow> nat \<Rightarrow> solution option \<Rightarrow> error + vrp_route list \<times> string list" where
  "solve_vrp dm day_index outcome =
     (if \<not> list_all (\<lambda>p. fst p < length (jobs dm) \<and> snd p < length (jobs dm)) (job_pairs dm)
      then Inl IndexError
      else if \<not> day_index < length (jobs_by_day dm) then Inl IndexError
      else
        (let allowed_jobs = jobs_by_day dm ! day_index
         in if \<not> list_all (\<lambda>j. j < length (jobs dm)) allowed_jobs then Inl IndexError
            else
              (case (case outcome of
                       None \<Rightarrow> Inr []
                     | Some sol \<Rightarrow> extract_routes dm sol [0..<num_vehicles dm]) of
                 Inl e \<Rightarrow> Inl e
               | Inr rs \<Rightarrow>
                   Inr (rs, unassigned_loop rs allowed_jobs (enumerate 0 (jobs dm))))))"

section \<open>\<^verbatim>\<open>optimize_routes\<close>\<close>

definition max_driver_hours :: "DriverModel list \<Rightarrow> int" where
  "max_driver_hours ds =
     (case map available_hours ds of [] \<Rightarrow> 9 | h # hs \<Rightarrow> foldl max h hs)"

text \<open>Decimal formatting of a number, as an f-string does it.\<close>

fun str_nat :: "nat \<Rightarrow> string" where
  "str_nat n =
     (if n < 10 then [''0123456789'' ! n]
      else str_nat (n div 10) @ [''0123456789'' ! (n mod 10)])"

definition assign_driver :: "string list \<Rightarrow> nat \<Rightarrow> nat \<times> vrp_route \<Rightarrow> RouteModel" where
  "assign_driver driver_ids d ir =
     (case ir of (i, route) \<Rightarrow>
        \<lparr>driver_id =
           (if i < length driver_ids then driver_ids ! i
            else ''additional-driver-'' @ str_nat (i - length driver_ids + 1)),
         day = d + 1,
         rm_stops = stops route,
         rm_total_time = total_time route\<rparr>)"

fun days_loop ::
  "environment \<Rightarrow> OptimizationRequest \<Rightarrow> data_model \<Rightarrow> nat list \<Rightarrow>
   RouteModel list \<Rightarrow> string list \<Rightarrow> error + RouteModel list \<times> string list" where
  "days_loop env request dm [] all_routes all_unassigned = Inr (all_routes, all_unassigned)"
| "days_loop env request dm (d # ds) all_routes all_unassigned =
     (case solve_vrp dm d (SolveWithParameters env dm d) of
        Inl e \<Rightarrow> Inl e
      | Inr (day_routes, day_unassigned) \<Rightarrow>
          days_loop env request dm ds
            (all_routes @
               map (assign_driver (map drv_id (req_drivers request)) d) (enumerate 0 day_routes))
            (all_unassigned @ day_unassigned))"

text \<open>
  The body of the \<^verbatim>\<open>try\<close> block. \<^verbatim>\<open>list(set(all_unassigned))\<close> keeps one copy of each
  id in an order Python does not specify; \<open>remdups\<close> fixes one such order, and nothing below
  depends on which.
\<close>

definition optimize_body :: "environment \<Rightarrow> OptimizationRequest \<Rightarrow> error + OptimizationResponse" where
  "optimize_body env request =
     (if req_jobs request = [] then Inl (HTTPException 400)
      else
        (case create_data_model env (req_jobs request) (num_drivers_per_day request)
                (max_driver_hours (req_drivers request)) of
           Inl e \<Rightarrow> Inl e
         | Inr dm \<Rightarrow>
             (case days_loop env request dm [0..<5] [] [] of
                Inl e \<Rightarrow> Inl e
              | Inr (all_routes, all_unassigned) \<Rightarrow>
                  Inr \<lparr>routes = all_routes, unassigned = remdups all_unassigned\<rparr>)))"

text \<open>
  \<^verbatim>\<open>except Exception as e\<close> catches every exception of the body, the
  \<^verbatim>\<open>HTTPException\<close> of the validation included (it is a subclass of \<^verbatim>\<open>Exception\<close>),
  and raises an \<^verbatim>\<open>HTTPException\<close> with status 500 in its place.
\<close>

definition optimize_routes :: "environment \<Rightarrow> OptimizationRequest \<Rightarrow> error + OptimizationResponse" where
  "optimize_routes env request =
     (case optimize_body env request of
        Inl e \<Rightarrow> Inl (HTTPException 500)
      | Inr response \<Rightarrow> Inr response)"

declare str_nat.simps [simp del]

section \<open>Notions used in the statements\<close>

text \<open>The job ids carried by the stops of a day's routes, in order.\<close>

definition route_stop_ids :: "vrp_route list \<Rightarrow> string list" where
  "route_stop_ids rs = concat (map (\<lambda>r. map stop_job_id (stops r)) rs)"

text \<open>
  What one day contributes: the routes and the unassigned list that \<^verbatim>\<open>solve_vrp\<close>
  returns for it (nothing when it raises).
\<close>

definition day_routes :: "environment \<Rightarrow> data_model \<Rightarrow> nat \<Rightarrow> vrp_route list" where
  "day_routes env dm d =
     (case solve_vrp dm d (SolveWithParameters env dm d) of Inl e \<Rightarrow> [] | Inr res \<Rightarrow> fst res)"

definition day_unassigned :: "environment \<Rightarrow> data_model \<Rightarrow> nat \<Rightarrow> string list" where
  "day_unassigned env dm d =
     (case solve_vrp dm d (SolveWithParameters env dm d) of Inl e \<Rightarrow> [] | Inr res \<Rightarrow> snd res)"

text \<open>
  A date string counts for day \<open>d\<close> when it does not parse, or parses to the date \<open>d\<close> days
  after today; \<open>entry_days\<close> is the number of times an entry with the given preferred dates
  is appended to the list of day \<open>d\<close>.
\<close>

definition date_hits :: "environment \<Rightarrow> nat \<Rightarrow> string \<Rightarrow> bool" where
  "date_hits env d s =
     (case fromisoformat env s of None \<Rightarrow> True | Some job_date \<Rightarrow> job_date - today env = int d)"

definition entry_days :: "environment \<Rightarrow> string list option \<Rightarrow> nat \<Rightarrow> nat" where
  "entry_days env pd d =
     (case pd of
        None \<Rightarrow> 1
      | Some ds \<Rightarrow> if ds = [] then 1 else length (filter (date_hits env d) ds))"

text \<open>
  The extraction step as the specification words it: for each visited node other than the
  depot, the first entry, in input order, that has the node's location index and has not been
  reported yet; the entries reported so far are carried along, through the vehicles of the
  day.
\<close>

fun first_unreported ::
  "(nat \<times> job_entry) list \<Rightarrow> nat list \<Rightarrow> nat \<Rightarrow> (nat \<times> job_entry) option" where
  "first_unreported [] reported node_index = None"
| "first_unreported ((k, job) # rest) reported node_index =
     (if location_idx job = node_index \<and> k \<notin> set reported then Some (k, job)
      else first_unreported rest reported node_index)"

fun spec_walk :: "data_model \<Rightarrow> (nat \<times> int) list \<Rightarrow> nat list \<Rightarrow> JobStop list \<times> nat list" where
  "spec_walk dm [] reported = ([], reported)"
| "spec_walk dm ((node_index, arrival_time) # rest) reported =
     (if node_index = 0 then spec_walk dm rest reported
      else
        (case first_unreported (enumerate 0 (jobs dm)) reported node_index of
           None \<Rightarrow> spec_walk dm rest reported
         | Some (k, job) \<Rightarrow>
             (case spec_walk dm rest (k # reported) of
                (ss, reported') \<Rightarrow>
                  (\<lparr>stop_job_id = e_id job,
                    window = [arrival_time,
                              min (arrival_time + 180) (max_time_per_vehicle dm)]\<rparr> # ss,
                   reported'))))"

fun spec_extract :: "data_model \<Rightarrow> solution \<Rightarrow> nat list \<Rightarrow> nat list \<Rightarrow> JobStop list list" where
  "spec_extract dm sol [] reported = []"
| "spec_extract dm sol (vid # vids) reported =
     (case spec_walk dm (sol vid) reported of
        (ss, reported') \<Rightarrow> ss # spec_extract dm sol vids reported')"

text \<open>
  What a routing solver guarantees of a solution: a node other than the depot has one index,
  and the chains of the vehicles are disjoint paths, so no such node is visited twice.
\<close>

definition visited_nodes :: "solution \<Rightarrow> nat list \<Rightarrow> nat list" where
  "visited_nodes sol vids = filter (\<lambda>n. n \<noteq> 0) (concat (map (\<lambda>v. map fst (sol v)) vids))"

definition visits_once :: "data_model \<Rightarrow> solution \<Rightarrow> bool" where
  "visits_once dm sol = distinct (visited_nodes sol [0..<num_vehicles dm])"

text \<open>
  A travel-time matrix with one row and one column per location, and a solution whose nodes
  are locations of the model.
\<close>

definition square_matrix :: "int list list \<Rightarrow> nat \<Rightarrow> bool" where
  "square_matrix m n = (length m = n \<and> list_all (\<lambda>row. length row = n) m)"

definition solution_in_range :: "data_model \<Rightarrow> solution \<Rightarrow> bool" where
  "solution_in_range dm sol =
     list_all (\<lambda>v. list_all (\<lambda>p. fst p < num_locations dm) (sol v)) [0..<num_vehicles dm]"

section \<open>Concrete requests\<close>

text \<open>
  An environment without an API key (so the travel times are the dummy ones), whose date
  parser knows two dates, the day after \<open>today\<close> and ten days after it, and whose solver
  finds a solution on the first day only: vehicle 0 leaves the depot and visits node 1.
\<close>

definition ex_sol :: solution where
  "ex_sol v = (if v = 0 then [(0, 0), (1, 30)] else [(0, 0)])"

definition ex_solver :: "data_model \<Rightarrow> nat \<Rightarrow> solution option" where
  "ex_solver dm d = (if d = 0 then Some ex_sol else None)"

definition ex_env :: environment where
  "ex_env =
     \<lparr>DEPOT_LOCATION = ''Birmingham, UK'',
      routes_api = None,
      fromisoformat = map_of [(''2024-01-02'', 19724), (''2024-01-11'', 19733)],
      today = 19723,
      SolveWithParameters = ex_solver\<rparr>"

definition ex_job :: "string \<Rightarrow> string \<Rightarrow> string list option \<Rightarrow> JobModel" where
  "ex_job i l ds =
     \<lparr>job_id = i, location = l, job_type = ''delivery'', related_job_id = None,
      preferred_date = ds\<rparr>"

definition ex_entry :: "string \<Rightarrow> nat \<Rightarrow> string list option \<Rightarrow> job_entry" where
  "ex_entry i l ds =
     \<lparr>e_id = i, location_idx = l, e_type = ''delivery'', e_related_job_id = None,
      e_preferred_date = ds\<rparr>"

definition empty_request :: OptimizationRequest where
  "empty_request = \<lparr>req_jobs = [], req_drivers = [], num_drivers_per_day = 1\<rparr>"

text \<open>Two jobs at one address, both free of date preferences, and their data model.\<close>

definition shared_jobs :: "JobModel list" where
  "shared_jobs = [ex_job ''A'' ''X'' None, ex_job ''B'' ''X'' None]"

definition shared_dm :: data_model where
  "shared_dm =
     \<lparr>time_matrix = [[30, 30], [30, 30]], num_locations = 2, depot = 0, num_vehicles = 1,
      jobs = [ex_entry ''A'' 1 None, ex_entry ''B'' 1 None],
      job_pairs = [],
      jobs_by_day = [[0, 1], [0, 1], [0, 1], [0, 1], [0, 1]],
      max_time_per_vehicle = 540\<rparr>"

text \<open>The same two jobs, the first now asking for the day after \<open>today\<close> only.\<close>

definition dated_jobs :: "JobModel list" where
  "dated_jobs = [ex_job ''A'' ''X'' (Some [''2024-01-02'']), ex_job ''B'' ''X'' None]"

definition dated_dm :: data_model where
  "dated_dm =
     \<lparr>time_matrix = [[30, 30], [30, 30]], num_locations = 2, depot = 0, num_vehicles = 1,
      jobs = [ex_entry ''A'' 1 (Some [''2024-01-02'']), ex_entry ''B'' 1 None],
      job_pairs = [],
      jobs_by_day = [[1], [0, 1], [1], [1], [1]],
      max_time_per_vehicle = 540\<rparr>"

text \<open>
  One job with three date strings: tomorrow, something that is no date, and a date ten days
  ahead.
\<close>

definition mixed_jobs :: "JobModel list" where
  "mixed_jobs = [ex_job ''M'' ''Y'' (Some [''2024-01-02'', ''not a date'', ''2024-01-11''])]"

definition mixed_dm :: data_model where
  "mixed_dm =
     \<lparr>time_matrix = [[30, 30], [30, 30]], num_locations = 2, depot = 0, num_vehicles = 1,
      jobs = [ex_entry ''M'' 1 (Some [''2024-01-02'', ''not a date'', ''2024-01-11''])],
      job_pairs = [],
      jobs_by_day = [[0], [0, 0], [0], [0], [0]],
      max_time_per_vehicle = 540\<rparr>"

text \<open>
  Five jobs with related ids: a collection and its delivery, which points back; a collection
  whose related id is nobody's; a collection related to another collection; a collection
  whose related id is the empty string.
\<close>

definition pair_job :: "string \<Rightarrow> string \<Rightarrow> string \<Rightarrow> string option \<Rightarrow> JobModel" where
  "pair_job i l t r =
     \<lparr>job_id = i, location = l, job_type = t, related_job_id = r, preferred_date = None\<rparr>"

definition pair_jobs :: "JobModel list" where
  "pair_jobs =
     [pair_job ''c1'' ''P'' ''collection'' (Some ''d1''),
      pair_job ''d1'' ''Q'' ''delivery'' (Some ''c1''),
      pair_job ''c2'' ''P'' ''collection'' (Some ''zz''),
      pair_job ''c3'' ''R'' ''collection'' (Some ''c1''),
      pair_job ''c4'' ''R'' ''collection'' (Some [])]"

definition pair_entry :: "string \<Rightarrow> nat \<Rightarrow> string \<Rightarrow> string option \<Rightarrow> job_entry" where
  "pair_entry i l t r =
     \<lparr>e_id = i, location_idx = l, e_type = t, e_related_job_id = r, e_preferred_date = None\<rparr>"

definition pair_dm :: data_model where
  "pair_dm =
     \<lparr>time_matrix = [[30, 30, 40, 60], [30, 30, 30, 40], [40, 30, 30, 30], [60, 40, 30, 30]],
      num_locations = 4, depot = 0, num_vehicles = 1,
      jobs = [pair_entry ''c1'' 1 ''collection'' (Some ''d1''),
              pair_entry ''d1'' 2 ''delivery'' (Some ''c1''),
              pair_entry ''c2'' 1 ''collection'' (Some ''zz''),
              pair_entry ''c3'' 3 ''collection'' (Some ''c1''),
              pair_entry ''c4'' 3 ''collection'' (Some [])],
      job_pairs = [(0, 1), (3, 0)],
      jobs_by_day = [[0, 1, 2, 3, 4], [0, 1, 2, 3, 4], [0, 1, 2, 3, 4], [0, 1, 2, 3, 4],
                     [0, 1, 2, 3, 4]],
      max_time_per_vehicle = 540\<rparr>"

text \<open>
  Two requests at the edge of the pairing: a collection whose related id is the empty string,
  with a job whose id is the empty string; and a collection whose related id is its own.
\<close>

definition blank_jobs :: "JobModel list" where
  "blank_jobs =
     [pair_job [] ''P'' ''delivery'' None,
      pair_job ''c'' ''Q'' ''collection'' (Some [])]"

definition self_jobs :: "JobModel list" where
  "self_jobs = [pair_job ''a'' ''P'' ''collection'' (Some ''a'')]"

text \<open>A request with one job, free of date preferences, and no drivers.\<close>

definition single_request :: OptimizationRequest where
  "single_request =
     \<lparr>req_jobs = [ex_job ''S'' ''X'' None], req_drivers = [], num_drivers_per_day = 1\<rparr>"

definition single_dm :: data_model where
  "single_dm =
     \<lparr>time_matrix = [[30, 30], [30, 30]], num_locations = 2, depot = 0, num_vehicles = 1,
      jobs = [ex_entry ''S'' 1 None],
      job_pairs = [],
      jobs_by_day = [[0], [0], [0], [0], [0]],
      max_time_per_vehicle = 540\<rparr>"

definition single_response :: OptimizationResponse where
  "single_response =
     \<lparr>routes = [\<lparr>driver_id = ''additional-driver-1'', day = 1,
                  rm_stops = [\<lparr>stop_job_id = ''S'', window = [30, 210]\<rparr>],
                  rm_total_time = 60\<rparr>],
      unassigned = [''S'']\<rparr>"

section \<open>The unassigned list of a day\<close>

lemma is_assigned_iff: "is_assigned rs x \<longleftrightarrow> x \<in> set (route_stop_ids rs)"
  by (auto simp: is_assigned_def route_stop_ids_def list_ex_iff)

lemma set_unassigned_loop:
  "x \<in> set (unassigned_loop rs al ijs) \<longleftrightarrow>
     \<not> is_assigned rs x \<and> (\<exists>p \<in> set ijs. e_id (snd p) = x \<and> fst p \<in> set al)"
  by (induction ijs) (auto split: if_splits)

lemma solve_vrp_Inr:
  assumes "solve_vrp dm d outcome = Inr (rs, un)"
  shows "d < length (jobs_by_day dm)"
    and "\<forall>j \<in> set (jobs_by_day dm ! d). j < length (jobs dm)"
    and "un = unassigned_loop rs (jobs_by_day dm ! d) (enumerate 0 (jobs dm))"
  using assms
  by (auto simp: solve_vrp_def Let_def list_all_iff split: if_splits sum.splits option.splits)

text \<open>
  C5. Whatever the solver answered on a day (a solution or none), an entry eligible that
  day has its job id either among the ids of the day's route stops or in the day's
  unassigned list, and never in both.
\<close>

theorem eligible_entry_stop_xor_unassigned:
  assumes "solve_vrp dm d outcome = Inr (rs, un)"
    and "i \<in> set (jobs_by_day dm ! d)"
  shows "(e_id (jobs dm ! i) \<in> set (route_stop_ids rs)) \<noteq> (e_id (jobs dm ! i) \<in> set un)"
proof -
  from solve_vrp_Inr[OF assms(1)] assms(2)
  have lt: "i < length (jobs dm)"
    and un: "un = unassigned_loop rs (jobs_by_day dm ! d) (enumerate 0 (jobs dm))"
    by auto
  from lt have "(i, jobs dm ! i) \<in> set (enumerate 0 (jobs dm))"
    by (simp add: in_set_enumerate_eq)
  with assms(2) show ?thesis
    unfolding un set_unassigned_loop is_assigned_iff by force
qed

text \<open>
  The theorem at the two jobs sharing an address, on the first day: entry 1 is eligible, its
  id is not on the route and is in the unassigned list.
\<close>

theorem eligible_entry_stop_xor_unassigned_witness:
  "solve_vrp shared_dm 0 (Some ex_sol) =
     Inr ([\<lparr>vehicle_id = 0, stops = [\<lparr>stop_job_id = ''A'', window = [30, 210]\<rparr>],
            total_time = 60\<rparr>], [''B''])
   \<and> 1 \<in> set (jobs_by_day shared_dm ! 0)
   \<and> (e_id (jobs shared_dm ! 1) \<in> set (route_stop_ids
         [\<lparr>vehicle_id = 0, stops = [\<lparr>stop_job_id = ''A'', window = [30, 210]\<rparr>],
           total_time = 60\<rparr>]))
      \<noteq> (e_id (jobs shared_dm ! 1) \<in> set [''B''])"
proof -
  have run: "solve_vrp shared_dm 0 (Some ex_sol) =
     Inr ([\<lparr>vehicle_id = 0, stops = [\<lparr>stop_job_id = ''A'', window = [30, 210]\<rparr>],
            total_time = 60\<rparr>], [''B''])"
    by code_simp
  have el: "1 \<in> set (jobs_by_day shared_dm ! 0)"
    by code_simp
  from eligible_entry_stop_xor_unassigned[OF run el] run el show ?thesis
    by blast
qed

section \<open>The request with no jobs\<close>

text \<open>
  C1. The request with an empty job list and no drivers: the body raises the
  \<^verbatim>\<open>HTTPException\<close> with status 400, the handler of the \<^verbatim>\<open>try\<close> block catches it, and
  the client receives status 500.
\<close>

theorem empty_jobs_answered_500:
  "optimize_body ex_env empty_request = Inl (HTTPException 400)
   \<and> optimize_routes ex_env empty_request = Inl (HTTPException 500)"
  by code_simp

text \<open>C2, as stated, fails: the request with no jobs does not return the empty result.\<close>

theorem zero_jobs_empty_result_counterexample:
  "optimize_routes ex_env empty_request \<noteq> Inr \<lparr>routes = [], unassigned = []\<rparr>"
  by code_simp

text \<open>
  C2, amended. A request with no jobs returns no result at all: it is answered with an
  error.
\<close>

theorem zero_jobs_rejected:
  "req_jobs request = [] \<Longrightarrow> \<exists>e. optimize_routes env request = Inl e"
  by (simp add: optimize_routes_def optimize_body_def)

theorem zero_jobs_rejected_witness:
  "req_jobs empty_request = [] \<and> (\<exists>e. optimize_routes ex_env empty_request = Inl e)"
proof -
  have h: "req_jobs empty_request = []"
    by (simp add: empty_request_def)
  from zero_jobs_rejected[OF h, of ex_env] h show ?thesis
    by blast
qed

section \<open>Jobs that share a location\<close>

text \<open>
  C3. Two jobs at one address, both eligible on every day; on the first day the vehicle
  visits their node. The stop carries the id of the first entry, and the second entry is
  reported unassigned although its location index is in the vehicle's visit list.
\<close>

theorem shared_location_reported_unassigned:
  "create_data_model ex_env shared_jobs 1 9 = Inr shared_dm
   \<and> solve_vrp shared_dm 0 (Some ex_sol) =
       Inr ([\<lparr>vehicle_id = 0, stops = [\<lparr>stop_job_id = ''A'', window = [30, 210]\<rparr>],
              total_time = 60\<rparr>], [''B''])
   \<and> 1 \<in> set (jobs_by_day shared_dm ! 0)
   \<and> e_id (jobs shared_dm ! 1) = ''B''
   \<and> location_idx (jobs shared_dm ! 1) \<in> set (map fst (ex_sol 0))"
  by code_simp

text \<open>
  C9. There are a request and a solver solution for which a day's route stops carry the id
  of an entry that is not eligible that day: the entry comes before an eligible entry with
  the same location index, and the scan for the job of a visited node runs over all entries
  in input order.
\<close>

theorem ineligible_entry_on_route:
  "\<exists>env js n h dm d sol rs un i k.
     create_data_model env js n h = Inr dm
     \<and> solve_vrp dm d (Some sol) = Inr (rs, un)
     \<and> i < k \<and> k < length (jobs dm)
     \<and> location_idx (jobs dm ! i) = location_idx (jobs dm ! k)
     \<and> k \<in> set (jobs_by_day dm ! d)
     \<and> i \<notin> set (jobs_by_day dm ! d)
     \<and> e_id (jobs dm ! i) \<noteq> e_id (jobs dm ! k)
     \<and> e_id (jobs dm ! i) \<in> set (route_stop_ids rs)"
proof -
  have "create_data_model ex_env dated_jobs 1 9 = Inr dated_dm
     \<and> solve_vrp dated_dm 0 (Some ex_sol) =
         Inr ([\<lparr>vehicle_id = 0, stops = [\<lparr>stop_job_id = ''A'', window = [30, 210]\<rparr>],
                total_time = 60\<rparr>], [''B''])
     \<and> (0::nat) < 1 \<and> 1 < length (jobs dated_dm)
     \<and> location_idx (jobs dated_dm ! 0) = location_idx (jobs dated_dm ! 1)
     \<and> 1 \<in> set (jobs_by_day dated_dm ! 0)
     \<and> 0 \<notin> set (jobs_by_day dated_dm ! 0)
     \<and> e_id (jobs dated_dm ! 0) \<noteq> e_id (jobs dated_dm ! 1)
     \<and> e_id (jobs dated_dm ! 0) \<in> set (route_stop_ids
           [\<lparr>vehicle_id = 0, stops = [\<lparr>stop_job_id = ''A'', window = [30, 210]\<rparr>],
             total_time = 60\<rparr>])"
    by code_simp
  then show ?thesis
    by (intro exI)
qed

section \<open>What \<^verbatim>\<open>create_data_model\<close> returns\<close>

lemma jobs_with_indices_fields:
  "jobs_with_indices m js = Inr es \<Longrightarrow>
     length es = length js \<and> map e_id es = map job_id js \<and> map e_type es = map job_type js
     \<and> map e_related_job_id es = map related_job_id js
     \<and> map e_preferred_date es = map preferred_date js"
  by (induction js arbitrary: es) (auto split: option.splits sum.splits)

lemma create_data_model_Inr:
  assumes "create_data_model env js n h = Inr dm"
  shows "\<exists>m. jobs_with_indices m js = Inr (jobs dm)"
    and "job_pairs dm = create_job_pairs (jobs dm)"
    and "jobs_by_day dm = create_jobs_by_day env (jobs dm)"
    and "max_time_per_vehicle dm = h * 60"
    and "num_vehicles dm = n"
    and "depot dm = 0"
  using assms
  by (auto simp: create_data_model_def Let_def split: prod.splits sum.splits)

lemma entry_fields:
  assumes "create_data_model env js n h = Inr dm" and "i < length js"
  shows "length (jobs dm) = length js"
    and "e_id (jobs dm ! i) = job_id (js ! i)"
    and "e_type (jobs dm ! i) = job_type (js ! i)"
    and "e_related_job_id (jobs dm ! i) = related_job_id (js ! i)"
    and "e_preferred_date (jobs dm ! i) = preferred_date (js ! i)"
proof -
  from create_data_model_Inr(1)[OF assms(1)] obtain m
    where "jobs_with_indices m js = Inr (jobs dm)" ..
  from jobs_with_indices_fields[OF this]
  have len: "length (jobs dm) = length js"
    and a: "map e_id (jobs dm) = map job_id js"
    and b: "map e_type (jobs dm) = map job_type js"
    and c: "map e_related_job_id (jobs dm) = map related_job_id js"
    and d: "map e_preferred_date (jobs dm) = map preferred_date js"
    by auto
  show "length (jobs dm) = length js" by (rule len)
  from assms(2) len have i: "i < length (jobs dm)" by simp
  show "e_id (jobs dm ! i) = job_id (js ! i)"
    using arg_cong[OF a, of "\<lambda>xs. xs ! i"] i assms(2) by simp
  show "e_type (jobs dm ! i) = job_type (js ! i)"
    using arg_cong[OF b, of "\<lambda>xs. xs ! i"] i assms(2) by simp
  show "e_related_job_id (jobs dm ! i) = related_job_id (js ! i)"
    using arg_cong[OF c, of "\<lambda>xs. xs ! i"] i assms(2) by simp
  show "e_preferred_date (jobs dm ! i) = preferred_date (js ! i)"
    using arg_cong[OF d, of "\<lambda>xs. xs ! i"] i assms(2) by simp
qed

text \<open>
  The lookup of a job's location never raises: the loop over the locations has given every
  one of them an index.
\<close>

lemma index_locations_dom:
  "index_locations ls (u, m) = (u', m') \<Longrightarrow> dom m' = dom m \<union> set ls"
proof (induction ls arbitrary: u m)
  case Nil
  then show ?case by simp
next
  case (Cons l ls)
  show ?case
  proof (cases "m l")
    case None
    with Cons.prems have "index_locations ls (u @ [l], m(l \<mapsto> length u)) = (u', m')"
      by simp
    from Cons.IH[OF this] show ?thesis by auto
  next
    case (Some k)
    with Cons.prems have "index_locations ls (u, m) = (u', m')"
      by simp
    from Cons.IH[OF this] Some show ?thesis by auto
  qed
qed

lemma jobs_with_indices_total:
  "location ` set js \<subseteq> dom m \<Longrightarrow> \<exists>es. jobs_with_indices m js = Inr es"
  by (induction js) auto

lemma create_data_model_total:
  assumes "compute_time_matrix env
             (fst (index_locations (DEPOT_LOCATION env # map location js) ([], Map.empty)))
           = Inr matrix"
  shows "\<exists>dm. create_data_model env js n h = Inr dm \<and> time_matrix dm = matrix"
proof -
  obtain u m where
    ix: "index_locations (DEPOT_LOCATION env # map location js) ([], Map.empty) = (u, m)"
    by (cases "index_locations (DEPOT_LOCATION env # map location js) ([], Map.empty)")
  from index_locations_dom[OF ix] have "location ` set js \<subseteq> dom m"
    by auto
  from jobs_with_indices_total[OF this] obtain es where "jobs_with_indices m js = Inr es" ..
  with assms ix show ?thesis
    by (simp add: create_data_model_def)
qed

section \<open>Day eligibility\<close>

lemma length_append_day [simp]: "length (append_day jbd d i) = length jbd"
  by (simp add: append_day_def)

lemma nth_append_day:
  "d' < length jbd \<Longrightarrow> append_day jbd d i ! d' = (if d' = d then jbd ! d @ [i] else jbd ! d')"
  by (simp add: append_day_def)

lemma length_foldl_append_day [simp]:
  "length (foldl (\<lambda>acc d'. append_day acc d' i) jbd ds) = length jbd"
  by (induction ds arbitrary: jbd) auto

lemma nth_foldl_append_day:
  "d < length jbd \<Longrightarrow>
   foldl (\<lambda>acc d'. append_day acc d' i) jbd ds ! d = jbd ! d @ replicate (count_list ds d) i"
  by (induction ds arbitrary: jbd) (auto simp: nth_append_day replicate_append_same)

lemma count_list_upt: "count_list [0..<n] d = (if d < n then 1 else 0)"
  by (induction n) auto

lemma length_append_all_days [simp]: "length (append_all_days jbd i) = length jbd"
  by (simp add: append_all_days_def)

lemma nth_append_all_days:
  "length jbd = 5 \<Longrightarrow> d < 5 \<Longrightarrow> append_all_days jbd i ! d = jbd ! d @ [i]"
  by (simp add: append_all_days_def nth_foldl_append_day count_list_upt)

lemma length_dates_loop [simp]: "length (dates_loop env i ds jbd) = length jbd"
  by (induction ds arbitrary: jbd) (auto simp: Let_def split: option.splits)

lemma nth_dates_loop:
  "length jbd = 5 \<Longrightarrow> d < 5 \<Longrightarrow>
   dates_loop env i ds jbd ! d = jbd ! d @ replicate (length (filter (date_hits env d) ds)) i"
proof (induction ds arbitrary: jbd)
  case Nil
  then show ?case by simp
next
  case (Cons s ds)
  show ?case
  proof (cases "fromisoformat env s")
    case None
    with Cons show ?thesis
      by (simp add: nth_append_all_days date_hits_def replicate_append_same)
  next
    case (Some jd)
    with Cons show ?thesis
      by (auto simp: Let_def nth_append_day date_hits_def replicate_append_same)
  qed
qed

lemma length_jobs_by_day_loop [simp]: "length (jobs_by_day_loop env ijs jbd) = length jbd"
  by (induction ijs arbitrary: jbd)
     (auto simp del: dates_loop.simps split: option.splits list.splits)

lemma nth_jobs_by_day_loop:
  "length jbd = 5 \<Longrightarrow> d < 5 \<Longrightarrow>
   jobs_by_day_loop env ijs jbd ! d =
     jbd ! d @ concat (map (\<lambda>p. replicate (entry_days env (e_preferred_date (snd p)) d) (fst p)) ijs)"
proof (induction ijs arbitrary: jbd)
  case Nil
  then show ?case by simp
next
  case (Cons p ijs)
  obtain i job where p: "p = (i, job)" by (cases p)
  show ?case
  proof (cases "e_preferred_date job")
    case None
    with Cons p show ?thesis
      by (simp add: nth_append_all_days entry_days_def)
  next
    case (Some ds)
    with Cons p show ?thesis
      by (cases ds)
         (simp_all del: dates_loop.simps add: nth_append_all_days nth_dates_loop entry_days_def)
  qed
qed

lemma count_list_replicate: "count_list (replicate n x) y = (if x = y then n else 0)"
  by (induction n) auto

lemma count_list_enumerate_concat:
  "count_list (concat (map (\<lambda>p. replicate (f (snd p)) (fst p)) (enumerate n xs))) i =
     (if n \<le> i \<and> i < n + length xs then f (xs ! (i - n)) else 0)"
proof (induction xs arbitrary: n)
  case Nil
  then show ?case by simp
next
  case (Cons x xs)
  show ?case
    using Cons[of "Suc n"] by (auto simp: count_list_replicate Suc_diff_le)
qed

lemma length_create_jobs_by_day [simp]: "length (create_jobs_by_day env es) = 5"
  by (simp add: create_jobs_by_day_def)

lemma count_create_jobs_by_day:
  assumes "d < 5"
  shows "count_list (create_jobs_by_day env es ! d) i =
     (if i < length es then entry_days env (e_preferred_date (es ! i)) d else 0)"
proof -
  have "create_jobs_by_day env es ! d =
      concat (map (\<lambda>p. replicate (entry_days env (e_preferred_date (snd p)) d) (fst p))
                (enumerate 0 es))"
    using assms by (simp add: create_jobs_by_day_def nth_jobs_by_day_loop)
  then show ?thesis
    using count_list_enumerate_concat[of "\<lambda>e. entry_days env (e_preferred_date e) d" 0 es i]
    by simp
qed

text \<open>
  C6. The data model has five day lists. For a day \<open>d\<close> below 5, the number of times entry
  \<open>i\<close> stands in the list of day \<open>d\<close> is: one, when the job has no preferred dates (none
  given, or an empty list); otherwise the number of its date strings that fail to parse (each
  adds the entry to all five days) plus the number of its date strings that parse to the date
  \<open>d\<close> days after today (each adds the entry to the day at its offset). A date that parses to
  an offset outside 0..4 is counted for no day, and repeated additions stay in the list.
\<close>

theorem day_eligibility:
  assumes "create_data_model env js n h = Inr dm" and "d < 5"
  shows "length (jobs_by_day dm) = 5 \<and>
     count_list (jobs_by_day dm ! d) i =
       (if i < length js then
          (case preferred_date (js ! i) of
             None \<Rightarrow> 1
           | Some ds \<Rightarrow>
               if ds = [] then 1
               else length (filter (\<lambda>s. fromisoformat env s = None) ds)
                    + length (filter (\<lambda>s. fromisoformat env s = Some (today env + int d)) ds))
        else 0)"
proof -
  have split: "length (filter (date_hits env d) ds) =
      length (filter (\<lambda>s. fromisoformat env s = None) ds)
      + length (filter (\<lambda>s. fromisoformat env s = Some (today env + int d)) ds)" for ds
    by (induction ds) (auto simp: date_hits_def split: option.splits)
  have jbd: "jobs_by_day dm = create_jobs_by_day env (jobs dm)"
    by (rule create_data_model_Inr(3)[OF assms(1)])
  have len: "length (jobs_by_day dm) = 5"
    by (simp add: jbd)
  show ?thesis
  proof (cases "i < length js")
    case True
    with entry_fields[OF assms(1) True] assms(2) len show ?thesis
      by (simp add: jbd count_create_jobs_by_day entry_days_def split split: option.splits)
  next
    case False
    moreover have "length (jobs dm) = length js"
      using create_data_model_Inr(1)[OF assms(1)] jobs_with_indices_fields by blast
    ultimately show ?thesis
      using assms(2) len by (simp add: jbd count_create_jobs_by_day)
  qed
qed

text \<open>
  The theorem at the job with three date strings, for the day after today: the entry is in
  that day's list twice, once for the date that names the day and once for the string that
  is no date; the date ten days ahead adds nothing.
\<close>

theorem day_eligibility_witness:
  "create_data_model ex_env mixed_jobs 1 9 = Inr mixed_dm \<and> (1::nat) < 5
   \<and> length (jobs_by_day mixed_dm) = 5 \<and> count_list (jobs_by_day mixed_dm ! 1) 0 = 2"
proof -
  have run: "create_data_model ex_env mixed_jobs 1 9 = Inr mixed_dm"
    by code_simp
  have d: "(1::nat) < 5"
    by simp
  have rhs: "(if 0 < length mixed_jobs then
          (case preferred_date (mixed_jobs ! 0) of
             None \<Rightarrow> 1
           | Some ds \<Rightarrow>
               if ds = [] then 1
               else length (filter (\<lambda>s. fromisoformat ex_env s = None) ds)
                    + length (filter (\<lambda>s. fromisoformat ex_env s = Some (today ex_env + int 1)) ds))
        else 0) = (2::nat)"
    by code_simp
  from day_eligibility[OF run d, of 0] run d show ?thesis
    unfolding rhs by simp
qed

section \<open>Job pairs\<close>

lemma job_id_to_idx_snoc:
  "job_id_to_idx (ijs @ [(i, job)]) m = (job_id_to_idx ijs m)(e_id job \<mapsto> i)"
  by (induction ijs arbitrary: m) auto

text \<open>The dictionary sends an id to the last entry that carries it.\<close>

lemma job_id_to_idx_enumerate:
  "job_id_to_idx (enumerate 0 es) Map.empty r = Some j \<longleftrightarrow>
     j < length es \<and> e_id (es ! j) = r \<and> (\<forall>k. j < k \<and> k < length es \<longrightarrow> e_id (es ! k) \<noteq> r)"
proof (induction es arbitrary: j rule: rev_induct)
  case Nil
  then show ?case by simp
next
  case (snoc e es)
  show ?case
  proof (cases "e_id e = r")
    case True
    have "j < length es \<Longrightarrow> \<exists>k. j < k \<and> k < Suc (length es) \<and> e_id ((es @ [e]) ! k) = r"
      using True by (intro exI[of _ "length es"]) simp
    with True show ?thesis
      by (auto simp: enumerate_append_eq job_id_to_idx_snoc nth_append less_Suc_eq)
  next
    case False
    then show ?thesis
      by (auto simp: enumerate_append_eq job_id_to_idx_snoc snoc nth_append less_Suc_eq)
  qed
qed

lemma in_set_job_pairs_loop:
  "(i, j) \<in> set (job_pairs_loop m ijs) \<longleftrightarrow>
     (\<exists>job r. (i, job) \<in> set ijs \<and> e_type job = ''collection''
                \<and> e_related_job_id job = Some r \<and> r \<noteq> [] \<and> m r = Some j)"
proof (induction ijs)
  case Nil
  then show ?case by simp
next
  case (Cons p ijs)
  obtain a b where p: "p = (a, b)" by (cases p)
  show ?case
    unfolding p by (cases "e_related_job_id b") (use Cons in \<open>auto split: option.splits\<close>)
qed

lemma fst_job_pairs_loop: "(i, j) \<in> set (job_pairs_loop m ijs) \<Longrightarrow> i \<in> fst ` set ijs"
  unfolding in_set_job_pairs_loop by force

lemma distinct_job_pairs_loop:
  "distinct (map fst ijs) \<Longrightarrow> distinct (map fst (job_pairs_loop m ijs))"
proof (induction ijs)
  case Nil
  then show ?case by simp
next
  case (Cons p ijs)
  obtain i job where p: "p = (i, job)" by (cases p)
  from Cons.prems p have "i \<notin> fst ` set ijs" by auto
  with fst_job_pairs_loop[of i _ m ijs] have "i \<notin> fst ` set (job_pairs_loop m ijs)" by auto
  with Cons p show ?case
    by (auto split: option.splits)
qed

lemma create_job_pairs_in_range:
  "(i, j) \<in> set (create_job_pairs es) \<Longrightarrow> i < length es \<and> j < length es"
  by (auto simp: create_job_pairs_def in_set_job_pairs_loop job_id_to_idx_enumerate
        in_set_enumerate_eq)

text \<open>
  C7, as stated, fails at two requests. In the first, the second job is a collection whose
  related id, the empty string, is the id of the first job, and there is no pair: the test
  \<^verbatim>\<open>job["related_job_id"]\<close> takes the empty string for absent. In the second, the only
  job is a collection whose related id is its own, and it is paired with itself, not with
  another entry.
\<close>

theorem job_pairs_counterexample:
  "job_type (blank_jobs ! 1) = ''collection''
   \<and> related_job_id (blank_jobs ! 1) = Some (job_id (blank_jobs ! 0))
   \<and> (case create_data_model ex_env blank_jobs 1 9 of
         Inl e \<Rightarrow> None | Inr dm \<Rightarrow> Some (job_pairs dm)) = Some []
   \<and> job_type (self_jobs ! 0) = ''collection''
   \<and> related_job_id (self_jobs ! 0) = Some (job_id (self_jobs ! 0))
   \<and> (case create_data_model ex_env self_jobs 1 9 of
         Inl e \<Rightarrow> None | Inr dm \<Rightarrow> Some (job_pairs dm)) = Some [(0, 0)]"
  by code_simp

text \<open>
  C7, amended. The pairs of the data model are exactly the pairs \<open>(i, j)\<close> where job \<open>i\<close> has
  type "collection", its related id is present and not empty, and \<open>j\<close> is the entry the id
  resolves to: the entry carrying that id (the last one if several do), which may be \<open>i\<close>
  itself. Nothing is asked of the type of job \<open>j\<close>. A job of another type, or one whose
  related id is absent, empty or carried by no entry, is the first component of no pair, and
  no job is the first component of two pairs.
\<close>

theorem job_pairs_exact:
  assumes "create_data_model env js n h = Inr dm"
  shows "set (job_pairs dm) =
     {(i, j). i < length js \<and> job_type (js ! i) = ''collection''
        \<and> (\<exists>r. related_job_id (js ! i) = Some r \<and> r \<noteq> []
              \<and> j < length js \<and> job_id (js ! j) = r
              \<and> (\<forall>k. j < k \<and> k < length js \<longrightarrow> job_id (js ! k) \<noteq> r))}
     \<and> distinct (map fst (job_pairs dm))"
proof -
  let ?es = "jobs dm"
  have len: "length ?es = length js"
    using create_data_model_Inr(1)[OF assms] jobs_with_indices_fields by blast
  have pairs: "job_pairs dm = create_job_pairs ?es"
    by (rule create_data_model_Inr(2)[OF assms])
  have f: "\<And>i. i < length js \<Longrightarrow> e_id (?es ! i) = job_id (js ! i)
      \<and> e_type (?es ! i) = job_type (js ! i)
      \<and> e_related_job_id (?es ! i) = related_job_id (js ! i)"
    using entry_fields[OF assms] by simp
  have "set (create_job_pairs ?es) =
     {(i, j). i < length ?es \<and> e_type (?es ! i) = ''collection''
        \<and> (\<exists>r. e_related_job_id (?es ! i) = Some r \<and> r \<noteq> []
              \<and> j < length ?es \<and> e_id (?es ! j) = r
              \<and> (\<forall>k. j < k \<and> k < length ?es \<longrightarrow> e_id (?es ! k) \<noteq> r))}"
    by (auto simp: create_job_pairs_def in_set_job_pairs_loop job_id_to_idx_enumerate
          in_set_enumerate_eq)
  also have "\<dots> =
     {(i, j). i < length js \<and> job_type (js ! i) = ''collection''
        \<and> (\<exists>r. related_job_id (js ! i) = Some r \<and> r \<noteq> []
              \<and> j < length js \<and> job_id (js ! j) = r
              \<and> (\<forall>k. j < k \<and> k < length js \<longrightarrow> job_id (js ! k) \<noteq> r))}"
    using f by (auto simp: len)
  finally have A: "set (job_pairs dm) =
     {(i, j). i < length js \<and> job_type (js ! i) = ''collection''
        \<and> (\<exists>r. related_job_id (js ! i) = Some r \<and> r \<noteq> []
              \<and> j < length js \<and> job_id (js ! j) = r
              \<and> (\<forall>k. j < k \<and> k < length js \<longrightarrow> job_id (js ! k) \<noteq> r))}"
    unfolding pairs .
  have B: "distinct (map fst (job_pairs dm))"
    unfolding pairs create_job_pairs_def by (rule distinct_job_pairs_loop) simp
  from A B show ?thesis ..
qed

text \<open>
  The theorem at the five jobs with related ids: the set it describes is the two pairs the
  code returns, the collection with its delivery and the collection related to another
  collection.
\<close>

theorem job_pairs_exact_witness:
  "create_data_model ex_env pair_jobs 1 9 = Inr pair_dm
   \<and> job_pairs pair_dm = [(0, 1), (3, 0)]
   \<and> {(i, j). i < length pair_jobs \<and> job_type (pair_jobs ! i) = ''collection''
        \<and> (\<exists>r. related_job_id (pair_jobs ! i) = Some r \<and> r \<noteq> []
              \<and> j < length pair_jobs \<and> job_id (pair_jobs ! j) = r
              \<and> (\<forall>k. j < k \<and> k < length pair_jobs \<longrightarrow> job_id (pair_jobs ! k) \<noteq> r))}
       = {(0, 1), (3, 0)}
   \<and> distinct (map fst (job_pairs pair_dm))"
proof -
  have run: "create_data_model ex_env pair_jobs 1 9 = Inr pair_dm"
    by code_simp
  have pairs: "job_pairs pair_dm = [(0, 1), (3, 0)]"
    by (simp add: pair_dm_def)
  from job_pairs_exact[OF run] run pairs show ?thesis
    by simp
qed

section \<open>Route extraction\<close>

lemma walk_route_stops:
  "walk_route dm w route rt = Inr (route', rt') \<Longrightarrow>
     route' = route @ concat (map (visit_stop dm) w)"
proof (induction w arbitrary: route rt)
  case Nil
  then show ?case by simp
next
  case (Cons v w)
  from Cons.prems obtain t where
    "walk_route dm w (route @ visit_stop dm v) (rt + t) = Inr (route', rt')"
    by (auto split: sum.splits)
  from Cons.IH[OF this] show ?case by simp
qed

lemma extract_routes_stops:
  "extract_routes dm sol vids = Inr rs \<Longrightarrow>
     map stops rs = filter (\<lambda>ss. ss \<noteq> []) (map (\<lambda>v. concat (map (visit_stop dm) (sol v))) vids)
     \<and> (\<forall>r \<in> set rs. vehicle_id r \<in> set vids
           \<and> stops r = concat (map (visit_stop dm) (sol (vehicle_id r))))"
proof (induction vids arbitrary: rs)
  case Nil
  then show ?case by simp
next
  case (Cons v vids)
  from Cons.prems obtain route rt rs' where
    w: "walk_route dm (sol v) [] 0 = Inr (route, rt)" and
    e: "extract_routes dm sol vids = Inr rs'" and
    rs: "rs = (if route \<noteq> [] then \<lparr>vehicle_id = v, stops = route, total_time = rt\<rparr> # rs' else rs')"
    by (auto split: sum.splits)
  from walk_route_stops[OF w] have route: "route = concat (map (visit_stop dm) (sol v))"
    by simp
  from Cons.IH[OF e] show ?case
    unfolding rs using route by auto
qed

lemma solve_vrp_Some_Inr:
  "solve_vrp dm d (Some sol) = Inr (rs, un) \<Longrightarrow>
     extract_routes dm sol [0..<num_vehicles dm] = Inr rs"
  by (auto simp: solve_vrp_def Let_def split: if_splits sum.splits)

lemma visit_stop_depot [simp]: "visit_stop dm (0, t) = []"
  by (simp add: visit_stop_def)

lemma length_visit_stop: "length (visit_stop dm v) \<le> (if fst v \<noteq> 0 then 1 else 0)"
  by (cases v) (simp add: visit_stop_def split: option.splits)

lemma length_concat_visit_stop:
  "length (concat (map (visit_stop dm) w)) \<le> length (filter (\<lambda>p. fst p \<noteq> 0) w)"
proof (induction w)
  case Nil
  then show ?case by simp
next
  case (Cons v w)
  with length_visit_stop[of dm v] show ?case by (auto split: if_splits)
qed

text \<open>
  When no reported entry has the location of the node, the first unreported entry with that
  location is the first entry with that location, the one the code's scan stops at.
\<close>

lemma first_unreported_find_job:
  assumes "\<forall>k \<in> set reported. n \<le> k \<and> k < n + length js \<longrightarrow> location_idx (js ! (k - n)) \<noteq> node"
  shows "map_option snd (first_unreported (enumerate n js) reported node) = find_job js node"
  using assms
proof (induction js arbitrary: n)
  case Nil
  then show ?case by simp
next
  case (Cons j js)
  show ?case
  proof (cases "location_idx j = node")
    case True
    with Cons.prems have "n \<notin> set reported" by force
    with True show ?thesis by simp
  next
    case False
    have "\<forall>k \<in> set reported. Suc n \<le> k \<and> k < Suc n + length js \<longrightarrow> location_idx (js ! (k - Suc n)) \<noteq> node"
    proof (intro ballI impI)
      fix k assume k: "k \<in> set reported" "Suc n \<le> k \<and> k < Suc n + length js"
      then have "n \<le> k \<and> k < n + length (j # js)" by simp
      with Cons.prems k(1) have "location_idx ((j # js) ! (k - n)) \<noteq> node" by blast
      moreover from k have "k - n = Suc (k - Suc n)" by arith
      ultimately show "location_idx (js ! (k - Suc n)) \<noteq> node" by simp
    qed
    from Cons.IH[OF this] False show ?thesis by simp
  qed
qed

lemma first_unreported_Some:
  "first_unreported (enumerate n js) reported node = Some (k, job) \<Longrightarrow>
     n \<le> k \<and> k < n + length js \<and> job = js ! (k - n) \<and> location_idx job = node"
proof (induction js arbitrary: n)
  case Nil
  then show ?case by simp
next
  case (Cons j js)
  show ?case
  proof (cases "location_idx j = node \<and> n \<notin> set reported")
    case True
    with Cons.prems show ?thesis by auto
  next
    case False
    with Cons.prems have "first_unreported (enumerate (Suc n) js) reported node = Some (k, job)"
      by auto
    from Cons.IH[OF this] show ?thesis
      by (auto simp: Suc_diff_le)
  qed
qed

text \<open>
  The invariant of the walk: every reported entry has its location among the nodes already
  visited, \<open>V\<close>, and the nodes still to come are not in \<open>V\<close>.
\<close>

lemma spec_walk_eq:
  assumes "\<forall>k \<in> set reported. k < length (jobs dm) \<and> location_idx (jobs dm ! k) \<in> V"
    and "distinct (filter (\<lambda>n. n \<noteq> 0) (map fst w))"
    and "set (filter (\<lambda>n. n \<noteq> 0) (map fst w)) \<inter> V = {}"
  shows "fst (spec_walk dm w reported) = concat (map (visit_stop dm) w)
         \<and> (\<forall>k \<in> set (snd (spec_walk dm w reported)).
               k < length (jobs dm)
               \<and> location_idx (jobs dm ! k) \<in> V \<union> set (filter (\<lambda>n. n \<noteq> 0) (map fst w)))"
  using assms
proof (induction w arbitrary: reported V)
  case Nil
  then show ?case by simp
next
  case (Cons v w)
  obtain node arr where v: "v = (node, arr)" by (cases v)
  show ?case
  proof (cases "node = 0")
    case True
    with Cons.prems v have d: "distinct (filter (\<lambda>n. n \<noteq> 0) (map fst w))"
      and i: "set (filter (\<lambda>n. n \<noteq> 0) (map fst w)) \<inter> V = {}"
      by auto
    from Cons.IH[OF Cons.prems(1) d i] True v show ?thesis
      by simp
  next
    case False
    with Cons.prems v have nV: "node \<notin> V"
      and nw: "node \<notin> set (filter (\<lambda>n. n \<noteq> 0) (map fst w))"
      and d: "distinct (filter (\<lambda>n. n \<noteq> 0) (map fst w))"
      and i: "set (filter (\<lambda>n. n \<noteq> 0) (map fst w)) \<inter> V = {}"
      by auto
    have "\<forall>k \<in> set reported. 0 \<le> k \<and> k < 0 + length (jobs dm)
            \<longrightarrow> location_idx (jobs dm ! (k - 0)) \<noteq> node"
      using Cons.prems(1) nV by auto
    from first_unreported_find_job[OF this]
    have fj: "map_option snd (first_unreported (enumerate 0 (jobs dm)) reported node)
                = find_job (jobs dm) node" .
    show ?thesis
    proof (cases "first_unreported (enumerate 0 (jobs dm)) reported node")
      case None
      with fj have "find_job (jobs dm) node = None" by simp
      with Cons.IH[OF Cons.prems(1) d i] None False v show ?thesis
        by (auto simp: visit_stop_def)
    next
      case (Some kj)
      obtain k job where kj: "kj = (k, job)" by (cases kj)
      from first_unreported_Some[of 0 "jobs dm" reported node k job] Some kj
      have k: "k < length (jobs dm)" and job: "job = jobs dm ! k" and loc: "location_idx job = node"
        by auto
      from fj Some kj have find: "find_job (jobs dm) node = Some job" by simp
      have inv: "\<forall>k' \<in> set (k # reported).
                   k' < length (jobs dm) \<and> location_idx (jobs dm ! k') \<in> insert node V"
        using Cons.prems(1) k job loc by auto
      have i': "set (filter (\<lambda>n. n \<noteq> 0) (map fst w)) \<inter> insert node V = {}"
        using i nw by auto
      from Cons.IH[OF inv d i'] Some kj find False v show ?thesis
        by (auto simp: visit_stop_def split: prod.splits)
    qed
  qed
qed

lemma visited_nodes_Cons:
  "visited_nodes sol (v # vids) = filter (\<lambda>n. n \<noteq> 0) (map fst (sol v)) @ visited_nodes sol vids"
  by (simp add: visited_nodes_def)

lemma spec_extract_eq:
  assumes "\<forall>k \<in> set reported. k < length (jobs dm) \<and> location_idx (jobs dm ! k) \<in> V"
    and "distinct (visited_nodes sol vids)"
    and "set (visited_nodes sol vids) \<inter> V = {}"
  shows "spec_extract dm sol vids reported = map (\<lambda>v. concat (map (visit_stop dm) (sol v))) vids"
  using assms
proof (induction vids arbitrary: reported V)
  case Nil
  then show ?case by simp
next
  case (Cons v vids)
  let ?here = "filter (\<lambda>n. n \<noteq> 0) (map fst (sol v))"
  from Cons.prems(2,3) have d1: "distinct ?here"
    and d2: "distinct (visited_nodes sol vids)"
    and dis: "set ?here \<inter> set (visited_nodes sol vids) = {}"
    and i1: "set ?here \<inter> V = {}"
    and i2: "set (visited_nodes sol vids) \<inter> V = {}"
    unfolding visited_nodes_Cons by auto
  from spec_walk_eq[OF Cons.prems(1) d1 i1]
  have st: "fst (spec_walk dm (sol v) reported) = concat (map (visit_stop dm) (sol v))"
    and inv: "\<forall>k \<in> set (snd (spec_walk dm (sol v) reported)).
                k < length (jobs dm) \<and> location_idx (jobs dm ! k) \<in> V \<union> set ?here"
    by auto
  have i3: "set (visited_nodes sol vids) \<inter> (V \<union> set ?here) = {}"
    using dis i2 by auto
  from Cons.IH[OF inv d2 i3] st show ?case
    by (cases "spec_walk dm (sol v) reported") simp
qed

text \<open>
  C4. For a solution that visits no node other than the depot twice, the stops of the routes
  that \<^verbatim>\<open>solve_vrp\<close> returns are the stops of the extraction worded in the
  specification (for each visited node other than the depot, the first entry not yet
  reported whose location index is the node's), with the vehicles without stops left out;
  and a route has at most one stop per visit to a node other than the depot, however many
  entries share the node's location index.
\<close>

theorem stop_is_first_unreported_entry:
  assumes "solve_vrp dm d (Some sol) = Inr (rs, un)" and "visits_once dm sol"
  shows "map stops rs = filter (\<lambda>ss. ss \<noteq> []) (spec_extract dm sol [0..<num_vehicles dm] [])
         \<and> (\<forall>r \<in> set rs.
               length (stops r) \<le> length (filter (\<lambda>p. fst p \<noteq> 0) (sol (vehicle_id r))))"
proof -
  from solve_vrp_Some_Inr[OF assms(1)]
  have ex: "extract_routes dm sol [0..<num_vehicles dm] = Inr rs" .
  have "spec_extract dm sol [0..<num_vehicles dm] [] =
          map (\<lambda>v. concat (map (visit_stop dm) (sol v))) [0..<num_vehicles dm]"
    using assms(2) by (intro spec_extract_eq[where V = "{}"]) (simp_all add: visits_once_def)
  with extract_routes_stops[OF ex] length_concat_visit_stop[of dm] show ?thesis
    by auto
qed

text \<open>
  The theorem at the two jobs sharing an address: the one visit to their node gives one stop,
  with the id of the first of the two.
\<close>

theorem stop_is_first_unreported_entry_witness:
  "solve_vrp shared_dm 0 (Some ex_sol) =
     Inr ([\<lparr>vehicle_id = 0, stops = [\<lparr>stop_job_id = ''A'', window = [30, 210]\<rparr>],
            total_time = 60\<rparr>], [''B''])
   \<and> visits_once shared_dm ex_sol
   \<and> [[\<lparr>stop_job_id = ''A'', window = [30, 210]\<rparr>]] =
       filter (\<lambda>ss. ss \<noteq> []) (spec_extract shared_dm ex_sol [0..<num_vehicles shared_dm] [])
   \<and> length [\<lparr>stop_job_id = ''A'', window = [30, 210]\<rparr>]
       \<le> length (filter (\<lambda>p. fst p \<noteq> 0) (ex_sol 0))"
proof -
  have run: "solve_vrp shared_dm 0 (Some ex_sol) =
     Inr ([\<lparr>vehicle_id = 0, stops = [\<lparr>stop_job_id = ''A'', window = [30, 210]\<rparr>],
            total_time = 60\<rparr>], [''B''])"
    by code_simp
  have once: "visits_once shared_dm ex_sol"
    by code_simp
  from stop_is_first_unreported_entry[OF run once] run once show ?thesis
    by simp
qed

section \<open>The week\<close>

lemma days_loop_Inr:
  "days_loop env request dm ds ar au = Inr (ar', au') \<Longrightarrow>
     ar' = ar @ concat (map (\<lambda>d. map (assign_driver (map drv_id (req_drivers request)) d)
                                    (enumerate 0 (day_routes env dm d))) ds)
     \<and> au' = au @ concat (map (day_unassigned env dm) ds)"
proof (induction ds arbitrary: ar au)
  case Nil
  then show ?case by simp
next
  case (Cons d ds)
  from Cons.prems obtain rs un where
    s: "solve_vrp dm d (SolveWithParameters env dm d) = Inr (rs, un)" and
    l: "days_loop env request dm ds
          (ar @ map (assign_driver (map drv_id (req_drivers request)) d) (enumerate 0 rs))
          (au @ un) = Inr (ar', au')"
    by (auto split: sum.splits)
  from Cons.IH[OF l] s show ?case
    by (simp add: day_routes_def day_unassigned_def)
qed

lemma optimize_routes_Inr:
  assumes "optimize_routes env request = Inr response"
    and "create_data_model env (req_jobs request) (num_drivers_per_day request)
           (max_driver_hours (req_drivers request)) = Inr dm"
  shows "routes response =
           concat (map (\<lambda>d. map (assign_driver (map drv_id (req_drivers request)) d)
                                  (enumerate 0 (day_routes env dm d))) [0..<5])"
    and "unassigned response = remdups (concat (map (day_unassigned env dm) [0..<5]))"
proof -
  from assms obtain ar au where
    l: "days_loop env request dm [0..<5] [] [] = Inr (ar, au)" and
    r: "response = \<lparr>routes = ar, unassigned = remdups au\<rparr>"
    by (auto simp: optimize_routes_def optimize_body_def split: sum.splits if_splits)
  from days_loop_Inr[OF l] r
  show "routes response =
           concat (map (\<lambda>d. map (assign_driver (map drv_id (req_drivers request)) d)
                                  (enumerate 0 (day_routes env dm d))) [0..<5])"
    and "unassigned response = remdups (concat (map (day_unassigned env dm) [0..<5]))"
    by simp_all
qed

lemma stops_assign_driver [simp]: "rm_stops (assign_driver ids d (i, r)) = stops r"
  and day_assign_driver [simp]: "day (assign_driver ids d (i, r)) = d + 1"
  by (simp_all add: assign_driver_def)

text \<open>
  C8. The unassigned list of the response has no duplicates, and its elements are those of
  the unassigned lists of the five days. In particular an id that is in the unassigned list
  of one day and on a route of another day is in the unassigned list of the response, and
  on a route of the response.
\<close>

theorem weekly_unassigned_is_union:
  assumes "optimize_routes env request = Inr response"
    and "create_data_model env (req_jobs request) (num_drivers_per_day request)
           (max_driver_hours (req_drivers request)) = Inr dm"
  shows "distinct (unassigned response)
     \<and> set (unassigned response) = (\<Union>d \<in> {0..<5}. set (day_unassigned env dm d))
     \<and> (\<forall>x d d'. d < 5 \<and> d' < 5 \<and> x \<in> set (day_unassigned env dm d)
                   \<and> x \<in> set (route_stop_ids (day_routes env dm d'))
           \<longrightarrow> x \<in> set (unassigned response)
               \<and> (\<exists>r \<in> set (routes response). day r = d' + 1
                      \<and> x \<in> set (map stop_job_id (rm_stops r))))"
proof -
  note R = optimize_routes_Inr[OF assms]
  have A: "distinct (unassigned response)"
    by (simp add: R(2))
  have B: "set (unassigned response) = (\<Union>d \<in> {0..<5}. set (day_unassigned env dm d))"
    by (simp add: R(2))
  have C: "\<exists>r \<in> set (routes response). day r = d' + 1 \<and> x \<in> set (map stop_job_id (rm_stops r))"
    if "d' < 5" and "x \<in> set (route_stop_ids (day_routes env dm d'))" for x d'
  proof -
    from that(2) obtain r where r: "r \<in> set (day_routes env dm d')"
      and x: "x \<in> set (map stop_job_id (stops r))"
      by (auto simp: route_stop_ids_def)
    from r obtain i where i: "i < length (day_routes env dm d')" and ri: "day_routes env dm d' ! i = r"
      by (auto simp: in_set_conv_nth)
    let ?ids = "map drv_id (req_drivers request)"
    from i ri have "(i, r) \<in> set (enumerate 0 (day_routes env dm d'))"
      by (auto simp: in_set_enumerate_eq)
    then have "assign_driver ?ids d' (i, r) \<in> set (routes response)"
      unfolding R(1) using that(1) by auto
    with x show ?thesis
      by (intro bexI[of _ "assign_driver ?ids d' (i, r)"]) simp_all
  qed
  from A B C show ?thesis
    by auto
qed

text \<open>
  The theorem at the request with one job: the job is on a route on the first day, unassigned
  on the second (the solver finds nothing there), and in the unassigned list of the week.
\<close>

theorem weekly_unassigned_is_union_witness:
  "optimize_routes ex_env single_request = Inr single_response
   \<and> create_data_model ex_env (req_jobs single_request) (num_drivers_per_day single_request)
        (max_driver_hours (req_drivers single_request)) = Inr single_dm
   \<and> ''S'' \<in> set (day_unassigned ex_env single_dm 1)
   \<and> ''S'' \<in> set (route_stop_ids (day_routes ex_env single_dm 0))
   \<and> distinct (unassigned single_response)
   \<and> ''S'' \<in> set (unassigned single_response)
   \<and> (\<exists>r \<in> set (routes single_response). day r = 0 + 1
          \<and> ''S'' \<in> set (map stop_job_id (rm_stops r)))"
proof -
  have run: "optimize_routes ex_env single_request = Inr single_response"
    by code_simp
  have dm: "create_data_model ex_env (req_jobs single_request)
              (num_drivers_per_day single_request)
              (max_driver_hours (req_drivers single_request)) = Inr single_dm"
    by code_simp
  have un: "''S'' \<in> set (day_unassigned ex_env single_dm 1)"
    by code_simp
  have rt: "''S'' \<in> set (route_stop_ids (day_routes ex_env single_dm 0))"
    by code_simp
  have days: "(1::nat) < 5" "(0::nat) < 5"
    by simp_all
  note T = weekly_unassigned_is_union[OF run dm]
  from T have A: "distinct (unassigned single_response)"
    by blast
  from T un rt days
  have C: "''S'' \<in> set (unassigned single_response)
     \<and> (\<exists>r \<in> set (routes single_response). day r = 0 + 1
            \<and> ''S'' \<in> set (map stop_job_id (rm_stops r)))"
    by blast
  from run dm un rt A C show ?thesis
    by blast
qed

section \<open>A request without drivers\<close>

lemma time_callback_in_range:
  assumes "square_matrix (time_matrix dm) n" and "a < n" and "b < n"
  shows "\<exists>t. time_callback dm a b = Inr t"
  using assms by (auto simp: time_callback_def square_matrix_def list_all_iff)

lemma walk_route_total:
  assumes "square_matrix (time_matrix dm) n" and "depot dm = 0"
    and "\<forall>p \<in> set w. fst p < n"
  shows "\<exists>res. walk_route dm w route rt = Inr res"
  using assms(3)
proof (induction w arbitrary: route rt)
  case Nil
  show ?case by simp
next
  case (Cons v w)
  from Cons.prems have a: "fst v < n" and rest: "\<forall>p \<in> set w. fst p < n"
    by auto
  have b: "(case w of [] \<Rightarrow> depot dm | x # _ \<Rightarrow> fst x) < n"
    using a rest assms(2) by (cases w) auto
  from time_callback_in_range[OF assms(1) a b] obtain t where
    t: "time_callback dm (fst v) (case w of [] \<Rightarrow> depot dm | x # _ \<Rightarrow> fst x) = Inr t" ..
  from Cons.IH[OF rest, of "route @ visit_stop dm v" "rt + t"] t show ?case
    by simp
qed

lemma extract_routes_total:
  assumes "square_matrix (time_matrix dm) n" and "depot dm = 0"
    and "\<forall>v \<in> set vids. \<forall>p \<in> set (sol v). fst p < n"
  shows "\<exists>rs. extract_routes dm sol vids = Inr rs"
  using assms(3)
proof (induction vids)
  case Nil
  show ?case by simp
next
  case (Cons v vids)
  from Cons.prems have here: "\<forall>p \<in> set (sol v). fst p < n"
    and rest: "\<forall>v \<in> set vids. \<forall>p \<in> set (sol v). fst p < n"
    by auto
  from walk_route_total[OF assms(1,2) here, of "[]" 0] obtain route rt where
    "walk_route dm (sol v) [] 0 = Inr (route, rt)" by force
  moreover from Cons.IH[OF rest] obtain rs where "extract_routes dm sol vids = Inr rs" ..
  ultimately show ?case by simp
qed

lemma create_jobs_by_day_in_range:
  assumes "d < 5" and "j \<in> set (create_jobs_by_day env es ! d)"
  shows "j < length es"
proof (rule ccontr)
  assume "\<not> j < length es"
  with count_create_jobs_by_day[OF assms(1), of env es j]
  have "count_list (create_jobs_by_day env es ! d) j = 0" by simp
  with assms(2) show False by (simp add: count_list_0_iff)
qed

text \<open>
  On a data model that \<^verbatim>\<open>create_data_model\<close> built, with a square matrix, \<^verbatim>\<open>solve_vrp\<close>
  raises on none of the five days, whether the solver found nothing or a solution whose
  nodes are locations.
\<close>

lemma solve_vrp_total:
  assumes dm: "create_data_model env js n h = Inr dm"
    and sq: "square_matrix (time_matrix dm) (num_locations dm)"
    and d: "d < 5"
    and sol: "\<And>sol. outcome = Some sol \<Longrightarrow> solution_in_range dm sol"
  shows "\<exists>res. solve_vrp dm d outcome = Inr res"
proof -
  note M = create_data_model_Inr[OF dm]
  have pairs: "list_all (\<lambda>p. fst p < length (jobs dm) \<and> snd p < length (jobs dm)) (job_pairs dm)"
    unfolding M(2) list_all_iff using create_job_pairs_in_range[of _ _ "jobs dm"] by auto
  have day: "d < length (jobs_by_day dm)"
    using d by (simp add: M(3))
  have allowed: "list_all (\<lambda>j. j < length (jobs dm)) (jobs_by_day dm ! d)"
    unfolding M(3) list_all_iff using create_jobs_by_day_in_range[OF d] by blast
  have "\<exists>rs. (case outcome of None \<Rightarrow> Inr [] | Some sol \<Rightarrow> extract_routes dm sol [0..<num_vehicles dm])
          = Inr rs"
  proof (cases outcome)
    case None
    then show ?thesis by simp
  next
    case (Some s)
    from sol[OF Some] have "\<forall>v \<in> set [0..<num_vehicles dm]. \<forall>p \<in> set (s v). fst p < num_locations dm"
      by (simp add: solution_in_range_def list_all_iff)
    from extract_routes_total[OF sq M(6) this] Some show ?thesis
      by simp
  qed
  then obtain rs where
    "(case outcome of None \<Rightarrow> Inr [] | Some sol \<Rightarrow> extract_routes dm sol [0..<num_vehicles dm])
       = Inr rs" ..
  with pairs day allowed show ?thesis
    by (simp add: solve_vrp_def Let_def)
qed

lemma days_loop_total:
  assumes dm: "create_data_model env js n h = Inr dm"
    and sq: "square_matrix (time_matrix dm) (num_locations dm)"
    and sol: "\<forall>d sol. d < 5 \<and> SolveWithParameters env dm d = Some sol \<longrightarrow> solution_in_range dm sol"
    and ds: "\<forall>d \<in> set ds. d < 5"
  shows "\<exists>res. days_loop env request dm ds ar au = Inr res"
  using ds
proof (induction ds arbitrary: ar au)
  case Nil
  show ?case by simp
next
  case (Cons d ds)
  from Cons.prems have d: "d < 5" and rest: "\<forall>d \<in> set ds. d < 5" by auto
  from solve_vrp_total[OF dm sq d, of "SolveWithParameters env dm d"] sol d
  obtain rs un where "solve_vrp dm d (SolveWithParameters env dm d) = Inr (rs, un)"
    by force
  with Cons.IH[OF rest] show ?case
    by simp
qed

lemma driver_id_no_drivers:
  "driver_id (assign_driver [] d (i, r)) = ''additional-driver-'' @ str_nat (i + 1)"
  by (simp add: assign_driver_def)

text \<open>
  C10. A request with jobs and with no drivers is optimized all the same. When the travel
  times were obtained (\<^verbatim>\<open>create_data_model\<close> returned), as a matrix with a row and a column
  per location, and the solver's solutions visit locations only, then: the time cap of a
  vehicle is 9 * 60 = 540 minutes, the operation returns a response, and the driver id of
  every route in it is "additional-driver-" followed by a number from 1 on.
\<close>

theorem no_drivers_still_optimized:
  assumes "req_jobs request \<noteq> []" and "req_drivers request = []"
    and "create_data_model env (req_jobs request) (num_drivers_per_day request)
           (max_driver_hours (req_drivers request)) = Inr dm"
    and "square_matrix (time_matrix dm) (num_locations dm)"
    and "\<forall>d sol. d < 5 \<and> SolveWithParameters env dm d = Some sol \<longrightarrow> solution_in_range dm sol"
  shows "max_time_per_vehicle dm = 540
     \<and> (\<exists>response. optimize_routes env request = Inr response
           \<and> (\<forall>r \<in> set (routes response).
                 \<exists>N \<ge> 1. driver_id r = ''additional-driver-'' @ str_nat N))"
proof -
  have hours: "max_driver_hours (req_drivers request) = 9"
    by (simp add: assms(2) max_driver_hours_def)
  have cap: "max_time_per_vehicle dm = 540"
    using create_data_model_Inr(4)[OF assms(3)] hours by simp
  from days_loop_total[OF assms(3,4,5), of "[0..<5]" request "[]" "[]"]
  obtain ar au where l: "days_loop env request dm [0..<5] [] [] = Inr (ar, au)"
    by force
  let ?response = "\<lparr>routes = ar, unassigned = remdups au\<rparr>"
  have run: "optimize_routes env request = Inr ?response"
    using assms(1,3) l by (simp add: optimize_routes_def optimize_body_def)
  have "\<exists>N \<ge> 1. driver_id r = ''additional-driver-'' @ str_nat N" if "r \<in> set (routes ?response)" for r
  proof -
    from that optimize_routes_Inr(1)[OF run assms(3)] assms(2)
    obtain d i vr where "r = assign_driver [] d (i, vr)"
      by auto
    then have "driver_id r = ''additional-driver-'' @ str_nat (i + 1)"
      by (simp add: driver_id_no_drivers)
    then show ?thesis
      by (intro exI[of _ "i + 1"]) simp
  qed
  with cap run show ?thesis
    by blast
qed

text \<open>
  The theorem at the request with one job and no drivers: the response it promises is the
  one the code computes, whose only route belongs to "additional-driver-1".
\<close>

theorem no_drivers_still_optimized_witness:
  "req_jobs single_request \<noteq> [] \<and> req_drivers single_request = []
   \<and> create_data_model ex_env (req_jobs single_request) (num_drivers_per_day single_request)
        (max_driver_hours (req_drivers single_request)) = Inr single_dm
   \<and> square_matrix (time_matrix single_dm) (num_locations single_dm)
   \<and> max_time_per_vehicle single_dm = 540
   \<and> optimize_routes ex_env single_request = Inr single_response
   \<and> (\<exists>N \<ge> 1. driver_id (routes single_response ! 0) = ''additional-driver-'' @ str_nat N)"
proof -
  have js: "req_jobs single_request \<noteq> []" and ds: "req_drivers single_request = []"
    by (simp_all add: single_request_def)
  have dm: "create_data_model ex_env (req_jobs single_request)
              (num_drivers_per_day single_request)
              (max_driver_hours (req_drivers single_request)) = Inr single_dm"
    by code_simp
  have sq: "square_matrix (time_matrix single_dm) (num_locations single_dm)"
    by code_simp
  have "solution_in_range single_dm ex_sol"
    by code_simp
  then have sol: "\<forall>d sol. d < 5 \<and> SolveWithParameters ex_env single_dm d = Some sol
                    \<longrightarrow> solution_in_range single_dm sol"
    by (auto simp: ex_env_def ex_solver_def split: if_splits)
  have run: "optimize_routes ex_env single_request = Inr single_response"
    by code_simp
  have r: "routes single_response ! 0 \<in> set (routes single_response)"
    by (simp add: single_response_def)
  from no_drivers_still_optimized[OF js ds dm sq sol] run r
  have "max_time_per_vehicle single_dm = 540
     \<and> (\<exists>N \<ge> 1. driver_id (routes single_response ! 0) = ''additional-driver-'' @ str_nat N)"
    by auto
  with js ds dm sq run show ?thesis
    by blast
qed

end
